theory Spec2Isabelle
  imports Complex_Main
begin

section \<open>Floating-point values, errors and arrays\<close>

text \<open>
  The simulation kernel (\<^verbatim>\<open>qemd/simulate.py\<close>, \<^verbatim>\<open>qemd/metrics.py\<close>) computes with
  IEEE doubles through numpy. A double is modelled as a value of \<open>fl\<close>: a finite value
  is a real number (rounding and overflow are idealised away), and the three non-finite
  values are kept apart, because the source tests \<^verbatim>\<open>np.isfinite\<close> and compares with
  \<^verbatim>\<open><=\<close>, which treat them differently. Signed zeros are not distinguished.
\<close>

datatype fl = Fin real | PInf | NInf | NaN

fun isfinite :: "fl \<Rightarrow> bool" where
  "isfinite (Fin x) = True"
| "isfinite PInf = False"
| "isfinite NInf = False"
| "isfinite NaN = False"

fun fneg :: "fl \<Rightarrow> fl" where
  "fneg (Fin x) = Fin (- x)"
| "fneg PInf = NInf"
| "fneg NInf = PInf"
| "fneg NaN = NaN"

fun fadd :: "fl \<Rightarrow> fl \<Rightarrow> fl" where
  "fadd (Fin a) (Fin b) = Fin (a + b)"
| "fadd NaN y = NaN"
| "fadd x NaN = NaN"
| "fadd PInf NInf = NaN"
| "fadd NInf PInf = NaN"
| "fadd PInf y = PInf"
| "fadd NInf y = NInf"
| "fadd (Fin a) y = y"

definition fsub :: "fl \<Rightarrow> fl \<Rightarrow> fl" where
  "fsub x y = fadd x (fneg y)"

fun fmul :: "fl \<Rightarrow> fl \<Rightarrow> fl" where
  "fmul (Fin a) (Fin b) = Fin (a * b)"
| "fmul NaN y = NaN"
| "fmul x NaN = NaN"
| "fmul (Fin a) y = (if a = 0 then NaN else if 0 < a then y else fneg y)"
| "fmul x (Fin b) = (if b = 0 then NaN else if 0 < b then x else fneg x)"
| "fmul PInf y = y"
| "fmul NInf y = fneg y"

text \<open>Division as numpy's \<^verbatim>\<open>float64\<close> does it: dividing by zero gives a non-finite value.\<close>

fun fdiv :: "fl \<Rightarrow> fl \<Rightarrow> fl" where
  "fdiv (Fin a) (Fin b) =
     (if b \<noteq> 0 then Fin (a / b) else if a = 0 then NaN else if 0 < a then PInf else NInf)"
| "fdiv NaN y = NaN"
| "fdiv x NaN = NaN"
| "fdiv (Fin a) y = Fin 0"
| "fdiv x (Fin b) = (if 0 \<le> b then x else fneg x)"
| "fdiv x y = NaN"

fun fsqrt :: "fl \<Rightarrow> fl" where
  "fsqrt (Fin x) = (if 0 \<le> x then Fin (sqrt x) else NaN)"
| "fsqrt PInf = PInf"
| "fsqrt NInf = NaN"
| "fsqrt NaN = NaN"

text \<open>Comparisons: every comparison with \<open>NaN\<close> is false.\<close>

fun fle :: "fl \<Rightarrow> fl \<Rightarrow> bool" where
  "fle (Fin a) (Fin b) = (a \<le> b)"
| "fle NaN y = False"
| "fle x NaN = False"
| "fle NInf y = True"
| "fle x PInf = True"
| "fle x y = False"

fun flt :: "fl \<Rightarrow> fl \<Rightarrow> bool" where
  "flt (Fin a) (Fin b) = (a < b)"
| "flt NaN y = False"
| "flt x NaN = False"
| "flt PInf y = False"
| "flt x NInf = False"
| "flt x y = True"

text \<open>\<^verbatim>\<open>np.maximum\<close> and \<^verbatim>\<open>np.minimum\<close> propagate \<open>NaN\<close>; \<^verbatim>\<open>np.clip(x, lo, hi)\<close> is
  \<^verbatim>\<open>minimum(maximum(x, lo), hi)\<close>.\<close>

definition np_maximum :: "fl \<Rightarrow> fl \<Rightarrow> fl" where
  "np_maximum x y = (if x = NaN \<or> y = NaN then NaN else if flt x y then y else x)"

definition np_minimum :: "fl \<Rightarrow> fl \<Rightarrow> fl" where
  "np_minimum x y = (if x = NaN \<or> y = NaN then NaN else if flt y x then y else x)"

definition np_clip :: "fl \<Rightarrow> fl \<Rightarrow> fl \<Rightarrow> fl" where
  "np_clip x lo hi = np_minimum (np_maximum x lo) hi"

text \<open>Python's builtin \<^verbatim>\<open>max(a, b)\<close> keeps \<open>a\<close> unless \<open>b > a\<close>.\<close>

definition py_max :: "fl \<Rightarrow> fl \<Rightarrow> fl" where
  "py_max a b = (if flt a b then b else a)"

text \<open>Clipping of real numbers, to state results on finite inputs.\<close>

definition clip :: "real \<Rightarrow> real \<Rightarrow> real \<Rightarrow> real" where
  "clip x lo hi = min (max x lo) hi"

text \<open>A complex double is a pair (real part, imaginary part) of doubles.\<close>

type_synonym cfl = "fl \<times> fl"

definition cadd :: "cfl \<Rightarrow> cfl \<Rightarrow> cfl" where
  "cadd z w = (fadd (fst z) (fst w), fadd (snd z) (snd w))"

definition csub :: "cfl \<Rightarrow> cfl \<Rightarrow> cfl" where
  "csub z w = (fsub (fst z) (fst w), fsub (snd z) (snd w))"

definition cmul :: "cfl \<Rightarrow> cfl \<Rightarrow> cfl" where
  "cmul z w = (fsub (fmul (fst z) (fst w)) (fmul (snd z) (snd w)),
               fadd (fmul (fst z) (snd w)) (fmul (snd z) (fst w)))"

definition cconj :: "cfl \<Rightarrow> cfl" where
  "cconj z = (fst z, fneg (snd z))"

definition cfinite :: "cfl \<Rightarrow> bool" where
  "cfinite z = (isfinite (fst z) \<and> isfinite (snd z))"

definition of_fl :: "fl \<Rightarrow> cfl" where
  "of_fl x = (x, Fin 0)"

definition of_complex :: "complex \<Rightarrow> cfl" where
  "of_complex z = (Fin (Re z), Fin (Im z))"

definition czero :: cfl where
  "czero = (Fin 0, Fin 0)"

definition cone :: cfl where
  "cone = (Fin 1, Fin 0)"

datatype py_error = IndexError | ValueError | ZeroDivisionError

definition bind_err :: "py_error + 'a \<Rightarrow> ('a \<Rightarrow> py_error + 'b) \<Rightarrow> py_error + 'b" where
  "bind_err r f = (case r of Inl e \<Rightarrow> Inl e | Inr v \<Rightarrow> f v)"

text \<open>
  A two-dimensional numpy array: its shape and its elements in row-major order. The
  element at \<open>(i, j)\<close> is element \<open>i * ncols + j\<close> of the buffer.
\<close>

datatype 'a ndarray = NDArray (nrows: nat) (ncols: nat) (buf: "'a list")

definition wellformed :: "'a ndarray \<Rightarrow> bool" where
  "wellformed A = (length (buf A) = nrows A * ncols A)"

definition tabulate :: "nat \<Rightarrow> nat \<Rightarrow> (nat \<Rightarrow> nat \<Rightarrow> 'a) \<Rightarrow> 'a ndarray" where
  "tabulate r c f = NDArray r c (map (\<lambda>k. f (k div c) (k mod c)) [0..<r * c])"

definition elem :: "'a ndarray \<Rightarrow> nat \<Rightarrow> nat \<Rightarrow> 'a" where
  "elem A i j = buf A ! (i * ncols A + j)"

text \<open>Python indexing along an axis of length \<open>n\<close>: a negative index counts from the end.\<close>

definition py_index :: "nat \<Rightarrow> int \<Rightarrow> nat option" where
  "py_index n i =
     (if 0 \<le> i \<and> i < int n then Some (nat i)
      else if - int n \<le> i \<and> i < 0 then Some (nat (i + int n))
      else None)"

definition getitem1 :: "'a list \<Rightarrow> int \<Rightarrow> py_error + 'a" where
  "getitem1 xs i = (case py_index (length xs) i of None \<Rightarrow> Inl IndexError | Some k \<Rightarrow> Inr (xs ! k))"

definition getitem :: "'a ndarray \<Rightarrow> int \<Rightarrow> int \<Rightarrow> py_error + 'a" where
  "getitem A i j =
     (case (py_index (nrows A) i, py_index (ncols A) j) of
        (Some a, Some b) \<Rightarrow> Inr (elem A a b)
      | _ \<Rightarrow> Inl IndexError)"

definition setitem :: "'a ndarray \<Rightarrow> int \<Rightarrow> int \<Rightarrow> 'a \<Rightarrow> py_error + 'a ndarray" where
  "setitem A i j v =
     (case (py_index (nrows A) i, py_index (ncols A) j) of
        (Some a, Some b) \<Rightarrow> Inr (NDArray (nrows A) (ncols A) ((buf A)[a * ncols A + b := v]))
      | _ \<Rightarrow> Inl IndexError)"

definition np_zeros :: "nat \<Rightarrow> nat \<Rightarrow> 'a \<Rightarrow> 'a ndarray" where
  "np_zeros r c z = tabulate r c (\<lambda>i j. z)"

definition amap :: "('a \<Rightarrow> 'b) \<Rightarrow> 'a ndarray \<Rightarrow> 'b ndarray" where
  "amap f A = NDArray (nrows A) (ncols A) (map f (buf A))"

definition np_T :: "'a ndarray \<Rightarrow> 'a ndarray" where
  "np_T A = tabulate (ncols A) (nrows A) (\<lambda>i j. elem A j i)"

definition np_conj :: "cfl ndarray \<Rightarrow> cfl ndarray" where
  "np_conj A = amap cconj A"

section \<open>Hamiltonian builder\<close>

text \<open>
  \<^verbatim>\<open>build_hamiltonian(epsilon, J)\<close>, \<^verbatim>\<open>simulate.py\<close> lines 13-29: \<^verbatim>\<open>np.diag(epsilon)\<close>,
  then for each \<open>i\<close> in \<^verbatim>\<open>range(N - 1)\<close> the two assignments \<^verbatim>\<open>H[i, i+1] = J[i]\<close> and
  \<^verbatim>\<open>H[i+1, i] = J[i]\<close>, then \<^verbatim>\<open>astype(complex)\<close>. Reading \<^verbatim>\<open>J[i]\<close> out of range raises
  \<^verbatim>\<open>IndexError\<close>; nothing compares the two lengths.
\<close>

definition np_diag :: "fl list \<Rightarrow> fl ndarray" where
  "np_diag eps = tabulate (length eps) (length eps) (\<lambda>i j. if i = j then eps ! i else Fin 0)"

fun ham_loop :: "fl list \<Rightarrow> nat list \<Rightarrow> fl ndarray \<Rightarrow> py_error + fl ndarray" where
  "ham_loop J [] H = Inr H"
| "ham_loop J (i # rest) H =
     bind_err (getitem1 J (int i)) (\<lambda>v.
     bind_err (setitem H (int i) (int i + 1) v) (\<lambda>H1.
     bind_err (getitem1 J (int i)) (\<lambda>w.
     bind_err (setitem H1 (int i + 1) (int i) w) (\<lambda>H2.
     ham_loop J rest H2))))"

definition astype_complex :: "fl ndarray \<Rightarrow> cfl ndarray" where
  "astype_complex A = amap of_fl A"

definition build_hamiltonian :: "fl list \<Rightarrow> fl list \<Rightarrow> py_error + cfl ndarray" where
  "build_hamiltonian epsilon J =
     (let N = length epsilon;
          H = np_diag epsilon
      in bind_err (ham_loop J [0..<N - 1] H) (\<lambda>H'. Inr (astype_complex H')))"

text \<open>The tridiagonal matrix with diagonal \<open>eps\<close> and off-diagonals \<open>J\<close>, entry by entry.\<close>

definition tridiag_entry :: "fl list \<Rightarrow> fl list \<Rightarrow> nat \<Rightarrow> nat \<Rightarrow> fl" where
  "tridiag_entry eps J i j =
     (if i = j then eps ! i
      else if j = i + 1 then J ! i
      else if i = j + 1 then J ! j
      else Fin 0)"

definition tridiag :: "fl list \<Rightarrow> fl list \<Rightarrow> cfl ndarray" where
  "tridiag eps J = tabulate (length eps) (length eps) (\<lambda>i j. of_fl (tridiag_entry eps J i j))"

text \<open>The matrix after the first \<open>k\<close> rounds of the loop of \<^verbatim>\<open>build_hamiltonian\<close>.\<close>

definition ham_partial :: "fl list \<Rightarrow> fl list \<Rightarrow> nat \<Rightarrow> fl ndarray" where
  "ham_partial eps J k = tabulate (length eps) (length eps)
     (\<lambda>i j. if i = j then eps ! i
            else if j = i + 1 \<and> i < k then J ! i
            else if i = j + 1 \<and> j < k then J ! j
            else Fin 0)"

section \<open>Lindblad operator builder\<close>

text \<open>
  \<^verbatim>\<open>config.py\<close>: \<^verbatim>\<open>NUM_ETC_SITES = 7\<close> and \<^verbatim>\<open>SINK_INDEX = NUM_ETC_SITES - 1\<close>.
  \<^verbatim>\<open>build_lindblad_ops(num_sites, gamma, k_sink, k_loss)\<close>, \<^verbatim>\<open>simulate.py\<close> lines 31-59,
  reads the sink index from this module constant, not from \<^verbatim>\<open>num_sites\<close>.
\<close>

definition NUM_ETC_SITES :: nat where
  "NUM_ETC_SITES = 7"

definition SINK_INDEX :: nat where
  "SINK_INDEX = NUM_ETC_SITES - 1"

definition np_scale :: "cfl \<Rightarrow> cfl ndarray \<Rightarrow> cfl ndarray" where
  "np_scale s A = amap (cmul s) A"

text \<open>
  One operator: \<^verbatim>\<open>A = np.zeros((n, n), dtype=complex); A[i, i] = 1.0\<close>, then
  \<^verbatim>\<open>np.sqrt(rate) * A\<close>. The assignment raises \<^verbatim>\<open>IndexError\<close> when \<open>i\<close> is out of range.
\<close>

definition site_op :: "nat \<Rightarrow> fl \<Rightarrow> nat \<Rightarrow> py_error + cfl ndarray" where
  "site_op n rate i =
     bind_err (setitem (np_zeros n n czero) (int i) (int i) cone) (\<lambda>A.
     Inr (np_scale (of_fl (fsqrt rate)) A))"

fun dephasing_loop :: "nat \<Rightarrow> fl \<Rightarrow> nat list \<Rightarrow> cfl ndarray list \<Rightarrow> py_error + cfl ndarray list" where
  "dephasing_loop n gamma [] L_ops = Inr L_ops"
| "dephasing_loop n gamma (i # rest) L_ops =
     bind_err (site_op n gamma i) (\<lambda>A. dephasing_loop n gamma rest (L_ops @ [A]))"

fun loss_loop :: "nat \<Rightarrow> fl \<Rightarrow> nat list \<Rightarrow> cfl ndarray list \<Rightarrow> py_error + cfl ndarray list" where
  "loss_loop n k_loss [] L_ops = Inr L_ops"
| "loss_loop n k_loss (i # rest) L_ops =
     (if i = SINK_INDEX then loss_loop n k_loss rest L_ops
      else bind_err (site_op n k_loss i) (\<lambda>A. loss_loop n k_loss rest (L_ops @ [A])))"

definition build_lindblad_ops :: "nat \<Rightarrow> fl \<Rightarrow> fl \<Rightarrow> fl \<Rightarrow> py_error + cfl ndarray list" where
  "build_lindblad_ops num_sites gamma k_sink k_loss =
     bind_err (dephasing_loop num_sites gamma [0..<num_sites] []) (\<lambda>L1.
     bind_err (loss_loop num_sites k_loss [0..<num_sites] L1) (\<lambda>L2.
     bind_err (site_op num_sites k_sink SINK_INDEX) (\<lambda>A_sink.
     Inr (L2 @ [A_sink]))))"

text \<open>The operator \<open>r |i><i|\<close> on \<open>n\<close> sites: one nonzero entry, \<open>r\<close>, at \<open>(i, i)\<close>.\<close>

definition projector :: "nat \<Rightarrow> real \<Rightarrow> nat \<Rightarrow> cfl ndarray" where
  "projector n r i = tabulate n n (\<lambda>a b. if a = i \<and> b = i then (Fin r, Fin 0) else (Fin 0, Fin 0))"

section \<open>Metrics\<close>

text \<open>
  \<^verbatim>\<open>compute_ete(rho_t_series, sink_index, k_sink, dt)\<close>, \<^verbatim>\<open>metrics.py\<close> lines 4-17: the loop
  runs over every element of the series and adds \<^verbatim>\<open>k_sink * sink_pop * dt\<close>; the result is
  clipped to \<open>[0, 1]\<close>.
\<close>

fun ete_loop :: "cfl ndarray list \<Rightarrow> int \<Rightarrow> fl \<Rightarrow> fl \<Rightarrow> fl \<Rightarrow> py_error + fl" where
  "ete_loop [] sink_index k_sink dt ete = Inr ete"
| "ete_loop (rho # rest) sink_index k_sink dt ete =
     bind_err (getitem rho sink_index sink_index) (\<lambda>z.
     let sink_pop = fst z
     in ete_loop rest sink_index k_sink dt (fadd ete (fmul (fmul k_sink sink_pop) dt)))"

definition compute_ete :: "cfl ndarray list \<Rightarrow> int \<Rightarrow> fl \<Rightarrow> fl \<Rightarrow> py_error + fl" where
  "compute_ete rho_t_series sink_index k_sink dt =
     bind_err (ete_loop rho_t_series sink_index k_sink dt (Fin 0)) (\<lambda>ete.
     Inr (np_clip ete (Fin 0) (Fin 1)))"

text \<open>
  The reading of claim C3 in which the sum is a left Riemann sum over the simulated
  window: the sample at the final time is left out.
\<close>

definition left_riemann_ete :: "complex ndarray list \<Rightarrow> nat \<Rightarrow> real \<Rightarrow> real \<Rightarrow> real" where
  "left_riemann_ete traj s k dt = clip (\<Sum>rho\<leftarrow>butlast traj. k * Re (elem rho s s) * dt) 0 1"

text \<open>\<^verbatim>\<open>np.sum\<close> and \<^verbatim>\<open>np.mean\<close> of a one-dimensional array.\<close>

definition np_sum :: "fl list \<Rightarrow> fl" where
  "np_sum xs = foldl fadd (Fin 0) xs"

definition np_mean :: "fl list \<Rightarrow> fl" where
  "np_mean xs = fdiv (np_sum xs) (Fin (real (length xs)))"

text \<open>
  \<^verbatim>\<open>coherence_measure(rho)\<close>, \<^verbatim>\<open>metrics.py\<close> lines 19-30: the diagonal of a copy is set to
  zero, and \<^verbatim>\<open>np.linalg.norm(., ord='fro')\<close> is the square root of the sum of the real
  parts of \<^verbatim>\<open>conj(z) * z\<close>.
\<close>

definition coherence_measure :: "cfl ndarray \<Rightarrow> fl" where
  "coherence_measure rho =
     (let off_diag = tabulate (nrows rho) (ncols rho) (\<lambda>i j. if i = j then czero else elem rho i j)
      in fsqrt (np_sum (map (\<lambda>z. fst (cmul (cconj z) z)) (buf off_diag))))"

text \<open>
  Elementwise operations on one-dimensional arrays broadcast: the lengths must be equal,
  or one of them must be 1; anything else raises \<^verbatim>\<open>ValueError\<close>.
\<close>

definition bcast :: "(fl \<Rightarrow> fl \<Rightarrow> fl) \<Rightarrow> fl list \<Rightarrow> fl list \<Rightarrow> py_error + fl list" where
  "bcast f xs ys =
     (if length xs = length ys then Inr (map2 f xs ys)
      else if length xs = 1 then Inr (map (f (hd xs)) ys)
      else if length ys = 1 then Inr (map (\<lambda>x. f x (hd ys)) xs)
      else Inl ValueError)"

text \<open>\<^verbatim>\<open>np.diff(x)\<close> is \<^verbatim>\<open>x[1:] - x[:-1]\<close>; \<^verbatim>\<open>np.trapz(y, x)\<close> is
  \<^verbatim>\<open>(d * (y[1:] + y[:-1]) / 2.0).sum()\<close> with \<^verbatim>\<open>d = np.diff(x)\<close>.\<close>

definition np_diff :: "fl list \<Rightarrow> fl list" where
  "np_diff x = map2 fsub (tl x) (butlast x)"

definition np_trapz :: "fl list \<Rightarrow> fl list \<Rightarrow> py_error + fl" where
  "np_trapz y x =
     (let d = np_diff x
      in bind_err (bcast fmul d (map2 fadd (tl y) (butlast y))) (\<lambda>p.
         Inr (np_sum (map (\<lambda>v. fdiv v (Fin 2)) p))))"

text \<open>\<^verbatim>\<open>compute_tau_c(rho_t_series, times)\<close>, \<^verbatim>\<open>metrics.py\<close> lines 32-61; the
  argument \<^verbatim>\<open>times\<close> is called \<open>time_grid\<close> here.\<close>

definition compute_tau_c :: "cfl ndarray list \<Rightarrow> fl list \<Rightarrow> py_error + fl" where
  "compute_tau_c rho_t_series time_grid =
     (let C0 = map coherence_measure rho_t_series;
          C1 = map (\<lambda>c. if \<not> isfinite c then Fin 0 else c) C0;
          C = map (\<lambda>c. np_maximum c (Fin 0)) C1
      in bind_err (np_trapz C time_grid) (\<lambda>den.
         if fle den (Fin (1 / 10 ^ 12)) then Inr (Fin 0)
         else bind_err (bcast fmul time_grid C) (\<lambda>tC.
              bind_err (np_trapz tC time_grid) (\<lambda>num.
              let tau = fdiv num den
              in if \<not> isfinite tau then Inr (Fin 0) else Inr tau))))"

text \<open>
  The words of claim C7: a coherence value that is non-finite or negative counts as 0,
  and the integrals are trapezoidal sums over the time grid.
\<close>

definition clamp_coherence :: "fl \<Rightarrow> fl" where
  "clamp_coherence c = (if isfinite c \<and> fle (Fin 0) c then c else Fin 0)"

definition trapezoid :: "fl list \<Rightarrow> fl list \<Rightarrow> fl" where
  "trapezoid y t =
     np_sum (map (\<lambda>i. fdiv (fmul (fsub (t ! (i + 1)) (t ! i)) (fadd (y ! (i + 1)) (y ! i))) (Fin 2))
                 [0..<length t - 1])"

text \<open>\<^verbatim>\<open>compute_resilience(base_qhs, jitter_qhs_list)\<close>, \<^verbatim>\<open>metrics.py\<close> lines 84-101.\<close>

definition compute_resilience :: "fl \<Rightarrow> fl list \<Rightarrow> fl" where
  "compute_resilience base_qhs jitter_qhs_list =
     (if fle base_qhs (Fin (1 / 10 ^ 6)) then Fin 1
      else
        let drops = map (\<lambda>q. py_max (Fin 0)
                      (fdiv (fsub base_qhs q) (py_max base_qhs (Fin (1 / 10 ^ 6))))) jitter_qhs_list;
            mean_drop = (if drops \<noteq> [] then np_mean drops else Fin 0);
            R = fsub (Fin 1) mean_drop
        in np_clip R (Fin 0) (Fin 1))"

section \<open>Evolution engine\<close>

text \<open>
  An elementwise numpy operation on two-dimensional arrays broadcasts each axis: the two
  lengths must be equal, or one of them must be 1; anything else raises \<^verbatim>\<open>ValueError\<close>.
  The in-place form \<^verbatim>\<open>A += B\<close> also requires the result to have the shape of \<open>A\<close>.
\<close>

definition bdim :: "nat \<Rightarrow> nat \<Rightarrow> nat option" where
  "bdim a b = (if a = b then Some a else if a = 1 then Some b else if b = 1 then Some a else None)"

definition np_binop :: "(cfl \<Rightarrow> cfl \<Rightarrow> cfl) \<Rightarrow> cfl ndarray \<Rightarrow> cfl ndarray \<Rightarrow> py_error + cfl ndarray" where
  "np_binop f A B =
     (case (bdim (nrows A) (nrows B), bdim (ncols A) (ncols B)) of
        (Some r, Some c) \<Rightarrow>
          Inr (tabulate r c (\<lambda>i j.
            f (elem A (if nrows A = 1 then 0 else i) (if ncols A = 1 then 0 else j))
              (elem B (if nrows B = 1 then 0 else i) (if ncols B = 1 then 0 else j))))
      | _ \<Rightarrow> Inl ValueError)"

definition np_iadd :: "cfl ndarray \<Rightarrow> cfl ndarray \<Rightarrow> py_error + cfl ndarray" where
  "np_iadd A B =
     bind_err (np_binop cadd A B) (\<lambda>C.
     if nrows C = nrows A \<and> ncols C = ncols A then Inr C else Inl ValueError)"

definition np_identity :: "nat \<Rightarrow> cfl ndarray" where
  "np_identity n = tabulate n n (\<lambda>i j. if i = j then cone else czero)"

definition np_kron :: "cfl ndarray \<Rightarrow> cfl ndarray \<Rightarrow> cfl ndarray" where
  "np_kron A B =
     tabulate (nrows A * nrows B) (ncols A * ncols B) (\<lambda>i j.
       cmul (elem A (i div nrows B) (j div ncols B)) (elem B (i mod nrows B) (j mod ncols B)))"

definition csum :: "cfl list \<Rightarrow> cfl" where
  "csum zs = foldl cadd czero zs"

text \<open>\<^verbatim>\<open>A @ B\<close> for two matrices, and for a matrix and a vector: the inner lengths must agree.\<close>

definition np_matmul :: "cfl ndarray \<Rightarrow> cfl ndarray \<Rightarrow> py_error + cfl ndarray" where
  "np_matmul A B =
     (if ncols A = nrows B
      then Inr (tabulate (nrows A) (ncols B) (\<lambda>i j.
             csum (map (\<lambda>k. cmul (elem A i k) (elem B k j)) [0..<ncols A])))
      else Inl ValueError)"

definition np_matvec :: "cfl ndarray \<Rightarrow> cfl list \<Rightarrow> py_error + cfl list" where
  "np_matvec U v =
     (if ncols U = length v
      then Inr (map (\<lambda>i. csum (map (\<lambda>k. cmul (elem U i k) (v ! k)) [0..<ncols U])) [0..<nrows U])
      else Inl ValueError)"

text \<open>
  The Liouvillian, \<^verbatim>\<open>simulate.py\<close> lines 69-82: \<^verbatim>\<open>L_H = -1j * (kron(I, H) - kron(H.T, I))\<close>, and
  for each jump operator \<^verbatim>\<open>L_D += term1 - term2\<close> with
  \<^verbatim>\<open>term1 = kron(Lk.conj(), Lk)\<close> and
  \<^verbatim>\<open>term2 = 0.5 * (kron(I, Lk_dag_Lk) + kron(Lk_dag_Lk.T, I))\<close>.
\<close>

fun dissipator_loop :: "cfl ndarray \<Rightarrow> cfl ndarray list \<Rightarrow> cfl ndarray \<Rightarrow> py_error + cfl ndarray" where
  "dissipator_loop I [] L_D = Inr L_D"
| "dissipator_loop I (Lk # rest) L_D =
     (let Lk_dag = np_T (np_conj Lk)
      in bind_err (np_matmul Lk_dag Lk) (\<lambda>Lk_dag_Lk.
         let term1 = np_kron (np_conj Lk) Lk
         in bind_err (np_binop cadd (np_kron I Lk_dag_Lk) (np_kron (np_T Lk_dag_Lk) I)) (\<lambda>S.
            let term2 = np_scale (Fin (1 / 2), Fin 0) S
            in bind_err (np_binop csub term1 term2) (\<lambda>D.
               bind_err (np_iadd L_D D) (\<lambda>L_D'.
               dissipator_loop I rest L_D')))))"

definition liouvillian :: "nat \<Rightarrow> cfl ndarray \<Rightarrow> cfl ndarray list \<Rightarrow> py_error + cfl ndarray" where
  "liouvillian N H L_ops =
     (let I = np_identity N
      in bind_err (np_binop csub (np_kron I H) (np_kron (np_T H) I)) (\<lambda>X.
         let L_H = np_scale (Fin 0, Fin (- 1)) X
         in bind_err (dissipator_loop I L_ops (np_zeros (N * N) (N * N) czero)) (\<lambda>L_D.
            np_binop cadd L_H L_D)))"

text \<open>
  \<^verbatim>\<open>np.arange(start, stop, step)\<close> on finite doubles: \<open>ceil((stop - start) / step)\<close> samples
  \<open>start + i * step\<close> (none when that number is not positive); a zero step makes the
  division of two Python floats raise \<^verbatim>\<open>ZeroDivisionError\<close>.
\<close>

definition np_arange :: "real \<Rightarrow> real \<Rightarrow> real \<Rightarrow> py_error + real list" where
  "np_arange start stop step =
     (if step = 0 then Inl ZeroDivisionError
      else Inr (map (\<lambda>i. start + real i * step) [0..<nat \<lceil>(stop - start) / step\<rceil>]))"

text \<open>
  Arrays that \<^verbatim>\<open>time_evolve\<close> creates or receives by reference live in a heap of buffers: an
  address is an index into the list, and allocation appends a buffer, so a new address
  is never one in use. An array object is a view: the address of its buffer and its
  shape. \<^verbatim>\<open>flatten\<close>, \<^verbatim>\<open>copy\<close>, \<^verbatim>\<open>@\<close> and \<^verbatim>\<open>np.nan_to_num\<close> allocate; \<^verbatim>\<open>reshape\<close> returns a
  view of the same buffer.
\<close>

type_synonym heap = "cfl list list"

datatype aref = ARef (addr: nat) (rows: nat) (cols: nat)

definition alloc :: "heap \<Rightarrow> cfl list \<Rightarrow> nat \<times> heap" where
  "alloc h b = (length h, h @ [b])"

definition load :: "heap \<Rightarrow> aref \<Rightarrow> cfl ndarray" where
  "load h a = NDArray (rows a) (cols a) (h ! addr a)"

definition nan_to_num :: "cfl \<Rightarrow> cfl" where
  "nan_to_num z = (if isfinite (fst z) then fst z else Fin 0, if isfinite (snd z) then snd z else Fin 0)"

text \<open>
  The loop of \<^verbatim>\<open>time_evolve\<close>, lines 90-96, over \<^verbatim>\<open>times[1:]\<close>: \<open>rho_vec\<close> is the address of
  the current state vector.
\<close>

fun evolve_loop ::
  "cfl ndarray \<Rightarrow> nat \<Rightarrow> real list \<Rightarrow> heap \<Rightarrow> nat \<Rightarrow> aref list \<Rightarrow> py_error + (aref list \<times> heap)" where
  "evolve_loop U_dt N [] h rho_vec rho_t_series = Inr (rho_t_series, h)"
| "evolve_loop U_dt N (t # rest) h rho_vec rho_t_series =
     bind_err (np_matvec U_dt (h ! rho_vec)) (\<lambda>v.
     let (a1, h1) = alloc h v;
         (a2, h2) = (if \<not> list_all cfinite v then alloc h1 (map nan_to_num (h1 ! a1)) else (a1, h1))
     in if length (h2 ! a2) = N * N
        then evolve_loop U_dt N rest h2 a2 (rho_t_series @ [ARef a2 N N])
        else Inl ValueError)"

text \<open>
  \<^verbatim>\<open>time_evolve(rho0, H, L_ops, T_end, dt)\<close>, lines 61-98. \<^verbatim>\<open>scipy.linalg.expm\<close> is a
  parameter \<open>expm\<close> of the model. The result is the trajectory (a list of array objects),
  the time grid, and the heap after the call.
\<close>

definition time_evolve ::
  "(cfl ndarray \<Rightarrow> py_error + cfl ndarray) \<Rightarrow> heap \<Rightarrow> aref \<Rightarrow> cfl ndarray \<Rightarrow> cfl ndarray list \<Rightarrow>
   real \<Rightarrow> real \<Rightarrow> py_error + ((aref list \<times> real list) \<times> heap)" where
  "time_evolve expm h rho0 H L_ops T_end dt =
     (let N = rows rho0
      in bind_err (liouvillian N H L_ops) (\<lambda>L_total.
         bind_err (np_arange 0 (T_end + dt) dt) (\<lambda>time_grid.
         let (rho_vec, h1) = alloc h (h ! addr rho0);
             (c, h2) = alloc h1 (h1 ! addr rho0);
             rho_t_series = [ARef c (rows rho0) (cols rho0)]
         in bind_err (expm (np_scale (of_fl (Fin dt)) L_total)) (\<lambda>U_dt.
            bind_err (evolve_loop U_dt N (tl time_grid) h2 rho_vec rho_t_series) (\<lambda>(series, h3).
            Inr ((series, time_grid), h3))))))"

text \<open>What the model assumes of \<open>expm\<close>: on a square matrix it returns a matrix of the same shape.\<close>

definition expm_keeps_shape :: "(cfl ndarray \<Rightarrow> py_error + cfl ndarray) \<Rightarrow> bool" where
  "expm_keeps_shape expm =
     (\<forall>A. nrows A = ncols A \<longrightarrow> (\<exists>U. expm A = Inr U \<and> nrows U = nrows A \<and> ncols U = ncols A))"

text \<open>The inputs \<^verbatim>\<open>time_evolve\<close> is written for: \<open>rho0\<close>, \<open>H\<close> and every jump operator are
  \<open>N \<times> N\<close>, and \<open>rho0\<close> is an array of the heap.\<close>

definition evolve_inputs :: "heap \<Rightarrow> aref \<Rightarrow> cfl ndarray \<Rightarrow> cfl ndarray list \<Rightarrow> bool" where
  "evolve_inputs h rho0 H L_ops =
     (addr rho0 < length h \<and> cols rho0 = rows rho0 \<and>
      length (h ! addr rho0) = rows rho0 * cols rho0 \<and>
      nrows H = rows rho0 \<and> ncols H = rows rho0 \<and>
      list_all (\<lambda>Lk. nrows Lk = rows rho0 \<and> ncols Lk = rows rho0) L_ops)"

text \<open>
  A stand-in for \<open>expm\<close> in concrete runs. The exponential of a zero matrix is the
  identity, so \<open>expm_at_zero\<close> is exact whenever its argument is a zero matrix, as it is for
  \<open>H = 0\<close> and no jump operators.
\<close>

definition expm_at_zero :: "cfl ndarray \<Rightarrow> py_error + cfl ndarray" where
  "expm_at_zero A = Inr (np_identity (nrows A))"

section \<open>Arrays: access and extensionality\<close>

lemma idx_lt: "i < r \<Longrightarrow> j < c \<Longrightarrow> i * c + j < r * (c::nat)"
proof -
  assume a: "i < r" "j < c"
  have "i * c + j < i * c + c" using a by simp
  also have "\<dots> = Suc i * c" by simp
  also have "\<dots> \<le> r * c" using a by (intro mult_le_mono1) simp
  finally show ?thesis .
qed

lemma nrows_tabulate [simp]: "nrows (tabulate r c f) = r"
  and ncols_tabulate [simp]: "ncols (tabulate r c f) = c"
  and wellformed_tabulate [simp]: "wellformed (tabulate r c f)"
  by (simp_all add: tabulate_def wellformed_def)

lemma elem_tabulate [simp]: "i < r \<Longrightarrow> j < c \<Longrightarrow> elem (tabulate r c f) i j = f i j"
  using idx_lt [of i r j c] by (simp add: tabulate_def elem_def)

lemma tabulate_cong: "(\<And>i j. i < r \<Longrightarrow> j < c \<Longrightarrow> f i j = g i j) \<Longrightarrow> tabulate r c f = tabulate r c g"
proof -
  assume h: "\<And>i j. i < r \<Longrightarrow> j < c \<Longrightarrow> f i j = g i j"
  have "f (k div c) (k mod c) = g (k div c) (k mod c)" if "k < r * c" for k
  proof -
    have c: "0 < c" using that by (cases c) auto
    have "k div c < r" using that c by (simp add: less_mult_imp_div_less)
    then show ?thesis using h c by simp
  qed
  then show ?thesis by (simp add: tabulate_def)
qed

lemma ndarray_eq_tabulate: "wellformed A \<Longrightarrow> A = tabulate (nrows A) (ncols A) (elem A)"
proof -
  assume w: "wellformed A"
  have "buf A = map (\<lambda>k. elem A (k div ncols A) (k mod ncols A)) [0..<nrows A * ncols A]"
    using w by (intro nth_equalityI) (simp_all add: wellformed_def elem_def)
  then show ?thesis by (cases A) (simp add: tabulate_def)
qed

lemma ndarray_eqI:
  assumes "wellformed A" "wellformed B" "nrows A = nrows B" "ncols A = ncols B"
    and "\<And>i j. i < nrows A \<Longrightarrow> j < ncols A \<Longrightarrow> elem A i j = elem B i j"
  shows "A = B"
proof -
  have "A = tabulate (nrows A) (ncols A) (elem A)" using assms(1) by (rule ndarray_eq_tabulate)
  also have "\<dots> = tabulate (nrows A) (ncols A) (elem B)" using assms(5) by (rule tabulate_cong)
  also have "\<dots> = B" using ndarray_eq_tabulate [OF assms(2)] assms(3,4) by simp
  finally show ?thesis .
qed

lemma amap_tabulate: "amap f (tabulate r c g) = tabulate r c (\<lambda>i j. f (g i j))"
  by (simp add: amap_def tabulate_def)

lemma py_index_nat [simp]: "py_index n (int i) = (if i < n then Some i else None)"
  by (simp add: py_index_def)

lemma py_index_Suc [simp]: "py_index n (int i + 1) = (if Suc i < n then Some (Suc i) else None)"
  using py_index_nat [of n "Suc i"] by (simp add: add.commute)

lemma setitem_in:
  "i < nrows A \<Longrightarrow> j < ncols A \<Longrightarrow>
   setitem A (int i) (int j) v = Inr (NDArray (nrows A) (ncols A) ((buf A)[i * ncols A + j := v]))"
  by (simp add: setitem_def)

lemma idx_inj: "j < c \<Longrightarrow> j' < c \<Longrightarrow> (i * c + j = i' * c + j') = (i = i' \<and> j = (j'::nat))"
proof
  assume a: "j < c" "j' < c" and e: "i * c + j = i' * c + j'"
  have "(i * c + j) div c = i" "(i' * c + j') div c = i'" using a by simp_all
  then have "i = i'" using e by simp
  then show "i = i' \<and> j = j'" using e by simp
qed simp

lemma elem_update:
  "wellformed A \<Longrightarrow> i < nrows A \<Longrightarrow> j < ncols A \<Longrightarrow> a < nrows A \<Longrightarrow> b < ncols A \<Longrightarrow>
   elem (NDArray (nrows A) (ncols A) ((buf A)[i * ncols A + j := v])) a b =
     (if a = i \<and> b = j then v else elem A a b)"
  using idx_lt [of a "nrows A" b "ncols A"] idx_inj [of j "ncols A" b i a]
  by (auto simp add: elem_def wellformed_def nth_list_update)

lemma wellformed_update: "wellformed A \<Longrightarrow> wellformed (NDArray (nrows A) (ncols A) ((buf A)[k := v]))"
  by (simp add: wellformed_def)

section \<open>The Hamiltonian loop\<close>

lemma bind_err_simps [simp]:
  "bind_err (Inl e) f = Inl e" "bind_err (Inr v) f = f v"
  by (simp_all add: bind_err_def)

lemma ham_loop_append:
  "ham_loop J (xs @ ys) H = bind_err (ham_loop J xs H) (ham_loop J ys)"
  by (induction xs arbitrary: H) (auto simp add: bind_err_def split: sum.splits)

lemma getitem1_in: "i < length xs \<Longrightarrow> getitem1 xs (int i) = Inr (xs ! i)"
  by (simp add: getitem1_def)

lemma getitem1_out: "length xs \<le> i \<Longrightarrow> getitem1 xs (int i) = Inl IndexError"
  by (simp add: getitem1_def)

lemma setitem_in2:
  "i < nrows A \<Longrightarrow> Suc j < ncols A \<Longrightarrow>
   setitem A (int i) (int j + 1) v = Inr (NDArray (nrows A) (ncols A) ((buf A)[i * ncols A + Suc j := v]))"
  by (simp add: setitem_def)

lemma setitem_in3:
  "Suc i < nrows A \<Longrightarrow> j < ncols A \<Longrightarrow>
   setitem A (int i + 1) (int j) v = Inr (NDArray (nrows A) (ncols A) ((buf A)[Suc i * ncols A + j := v]))"
  by (simp add: setitem_def)

lemma ham_step:
  assumes "Suc k < length eps" "k < length J"
  shows "ham_loop J [k] (ham_partial eps J k) = Inr (ham_partial eps J (Suc k))"
proof -
  define N where "N = length eps"
  define H where "H = ham_partial eps J k"
  define H1 where "H1 = NDArray (nrows H) (ncols H) ((buf H)[k * ncols H + Suc k := J ! k])"
  define H2 where "H2 = NDArray (nrows H1) (ncols H1) ((buf H1)[Suc k * ncols H1 + k := J ! k])"
  have sh: "nrows H = N" "ncols H = N" "wellformed H"
    by (simp_all add: H_def N_def ham_partial_def)
  have sh1: "nrows H1 = N" "ncols H1 = N" "wellformed H1"
    using sh by (simp_all add: H1_def wellformed_def)
  have sh2: "nrows H2 = N" "ncols H2 = N" "wellformed H2"
    using sh1 by (simp_all add: H2_def wellformed_def)
  have kN: "k < N" "Suc k < N" using assms by (simp_all add: N_def)
  have e1: "elem H1 a b = (if a = k \<and> b = Suc k then J ! k else elem H a b)"
    if "a < N" "b < N" for a b
    unfolding H1_def using elem_update [of H k "Suc k" a b "J ! k"] sh kN that by simp
  have e2: "elem H2 a b = (if a = Suc k \<and> b = k then J ! k else elem H1 a b)"
    if "a < N" "b < N" for a b
    unfolding H2_def using elem_update [of H1 "Suc k" k a b "J ! k"] sh1 kN that by simp
  have s1: "setitem H (int k) (int k + 1) (J ! k) = Inr H1"
    unfolding H1_def using sh kN by (intro setitem_in2) simp_all
  have s2: "setitem H1 (int k + 1) (int k) (J ! k) = Inr H2"
    unfolding H2_def using sh1 kN by (intro setitem_in3) simp_all
  have run: "ham_loop J [k] H = Inr H2"
    using assms(2) by (simp add: getitem1_in s1 s2)
  have "H2 = ham_partial eps J (Suc k)"
  proof (rule ndarray_eqI)
    show "wellformed H2" by (rule sh2)
    show "wellformed (ham_partial eps J (Suc k))" by (simp add: ham_partial_def)
    show "nrows H2 = nrows (ham_partial eps J (Suc k))" using sh2 by (simp add: ham_partial_def N_def)
    show "ncols H2 = ncols (ham_partial eps J (Suc k))" using sh2 by (simp add: ham_partial_def N_def)
    fix i j assume "i < nrows H2" "j < ncols H2"
    then have ij: "i < N" "j < N" using sh2 by simp_all
    have "elem H2 i j =
        (if i = Suc k \<and> j = k then J ! k else if i = k \<and> j = Suc k then J ! k else elem H i j)"
      by (simp only: e2 [OF ij] e1 [OF ij])
    moreover have "elem H i j =
        (if i = j then eps ! i
         else if j = i + 1 \<and> i < k then J ! i
         else if i = j + 1 \<and> j < k then J ! j else Fin 0)"
      using ij by (simp add: H_def ham_partial_def N_def)
    moreover have "elem (ham_partial eps J (Suc k)) i j =
        (if i = j then eps ! i
         else if j = i + 1 \<and> i < Suc k then J ! i
         else if i = j + 1 \<and> j < Suc k then J ! j else Fin 0)"
      using ij by (simp add: ham_partial_def N_def)
    ultimately show "elem H2 i j = elem (ham_partial eps J (Suc k)) i j"
      by (auto simp add: less_Suc_eq)
  qed
  then show ?thesis using run by (simp add: H_def)
qed

lemma ham_loop_prefix:
  "k \<le> length eps - 1 \<Longrightarrow> k \<le> length J \<Longrightarrow>
   ham_loop J [0..<k] (ham_partial eps J 0) = Inr (ham_partial eps J k)"
proof (induction k)
  case 0
  then show ?case by simp
next
  case (Suc k)
  then have "ham_loop J [0..<k] (ham_partial eps J 0) = Inr (ham_partial eps J k)" by simp
  moreover have "ham_loop J [k] (ham_partial eps J k) = Inr (ham_partial eps J (Suc k))"
    using Suc.prems by (intro ham_step) simp_all
  ultimately show ?case by (simp add: ham_loop_append del: ham_loop.simps)
qed

lemma np_diag_partial: "np_diag eps = ham_partial eps J 0"
  by (simp add: np_diag_def ham_partial_def cong: if_cong)

lemma ham_loop_ok:
  assumes "length eps - 1 \<le> length J"
  shows "ham_loop J [0..<length eps - 1] (np_diag eps) = Inr (ham_partial eps J (length eps - 1))"
  using ham_loop_prefix [of "length eps - 1" eps J] assms by (simp add: np_diag_partial [of eps J])

lemma ham_loop_short:
  assumes "length J < length eps - 1"
  shows "ham_loop J [0..<length eps - 1] (np_diag eps) = Inl IndexError"
proof -
  have s: "[0..<length eps - 1] = [0..<length J] @ (length J # [Suc (length J)..<length eps - 1])"
    using assms by (metis less_imp_le_nat upt_add_eq_append upt_conv_Cons le_add_diff_inverse zero_le add_0)
  have "ham_loop J [0..<length J] (np_diag eps) = Inr (ham_partial eps J (length J))"
    using ham_loop_prefix [of "length J" eps J] assms by (simp add: np_diag_partial [of eps J])
  moreover have "ham_loop J [0..<length eps - 1] (np_diag eps) =
      bind_err (ham_loop J [0..<length J] (np_diag eps))
        (ham_loop J (length J # [Suc (length J)..<length eps - 1]))"
    by (subst s) (rule ham_loop_append)
  ultimately show ?thesis by (simp add: getitem1_out)
qed

lemma astype_partial:
  "astype_complex (ham_partial eps J (length eps - 1)) = tridiag eps J"
  unfolding astype_complex_def ham_partial_def tridiag_def amap_tabulate
  by (rule tabulate_cong) (auto simp add: tridiag_entry_def)

lemma build_hamiltonian_cases:
  "build_hamiltonian eps J =
     (if int (length J) < int (length eps) - 1 then Inl IndexError else Inr (tridiag eps J))"
proof -
  have c: "(int (length J) < int (length eps) - 1) = (length J < length eps - 1)" by linarith
  show ?thesis
  proof (cases "length J < length eps - 1")
    case True
    then show ?thesis unfolding c using ham_loop_short [of J eps]
      by (simp add: build_hamiltonian_def)
  next
    case False
    then have "length eps - 1 \<le> length J" by simp
    then show ?thesis unfolding c using False ham_loop_ok [of eps J] astype_partial [of eps J]
      by (simp add: build_hamiltonian_def)
  qed
qed

section \<open>Claims about the Hamiltonian builder\<close>

lemma tridiag_take: "tridiag eps (take (length eps - 1) J) = tridiag eps J"
  unfolding tridiag_def by (rule tabulate_cong) (auto simp add: tridiag_entry_def)

text \<open>
  Claim C1, as amended. \<^verbatim>\<open>build_hamiltonian\<close> never compares the two lengths. A coupling
  vector with fewer than \<open>N - 1\<close> entries makes the read \<^verbatim>\<open>J[i]\<close> raise an \<^verbatim>\<open>IndexError\<close>;
  with \<open>N - 1\<close> entries or more the call returns the tridiagonal matrix built from the
  first \<open>N - 1\<close> couplings, and the surplus entries are ignored.
\<close>

theorem build_hamiltonian_no_length_check:
  "build_hamiltonian eps J =
     (if int (length J) < int (length eps) - 1 then Inl IndexError
      else Inr (tridiag eps (take (length eps - 1) J)))"
  by (simp only: build_hamiltonian_cases tridiag_take)

text \<open>
  Claim C1 as stated fails: with two site energies and two couplings the lengths do not
  match (\<open>2 \<noteq> 2 - 1\<close>), yet the call returns a matrix, built from the first coupling
  only.
\<close>

theorem build_hamiltonian_accepts_long_J:
  "int (length [Fin 5, Fin 7]) \<noteq> int (length [Fin 1, Fin 2]) - 1 \<and>
   build_hamiltonian [Fin 1, Fin 2] [Fin 5, Fin 7] =
     Inr (NDArray 2 2 [(Fin 1, Fin 0), (Fin 5, Fin 0), (Fin 5, Fin 0), (Fin 2, Fin 0)])"
  by code_simp

lemma np_T_tabulate: "np_T (tabulate n n f) = tabulate n n (\<lambda>i j. f j i)"
  unfolding np_T_def by (simp, rule tabulate_cong) simp

lemma tridiag_hermitian: "np_conj (np_T (tridiag eps J)) = tridiag eps J"
  unfolding tridiag_def np_conj_def np_T_tabulate amap_tabulate
  by (rule tabulate_cong) (auto simp add: tridiag_entry_def cconj_def of_fl_def)

text \<open>
  Claim C6. For real site energies \<open>eps\<close> (length \<open>N\<close>) and real couplings \<open>J\<close> (length
  \<open>N - 1\<close>), \<^verbatim>\<open>build_hamiltonian\<close> returns a matrix \<open>H\<close> that equals its conjugate transpose,
  with \<open>eps\<close> on the diagonal, \<open>J\<close> on the two neighbouring diagonals, and zero in every
  entry more than one index away from the diagonal.
\<close>

theorem build_hamiltonian_hermitian_tridiagonal:
  assumes "length eps = Suc (length J)"
  shows "\<exists>H. build_hamiltonian (map Fin eps) (map Fin J) = Inr H \<and>
           np_conj (np_T H) = H \<and>
           nrows H = length eps \<and> ncols H = length eps \<and>
           (\<forall>i<length eps. elem H i i = (Fin (eps ! i), Fin 0)) \<and>
           (\<forall>i<length J. elem H i (i + 1) = (Fin (J ! i), Fin 0) \<and>
                          elem H (i + 1) i = (Fin (J ! i), Fin 0)) \<and>
           (\<forall>i<length eps. \<forall>j<length eps. i + 1 < j \<or> j + 1 < i \<longrightarrow>
                          elem H i j = (Fin 0, Fin 0))"
proof -
  let ?H = "tridiag (map Fin eps) (map Fin J)"
  have run: "build_hamiltonian (map Fin eps) (map Fin J) = Inr ?H"
    using assms by (simp add: build_hamiltonian_cases)
  have e: "elem ?H i j = of_fl (tridiag_entry (map Fin eps) (map Fin J) i j)"
    if "i < length eps" "j < length eps" for i j
    using that by (simp add: tridiag_def)
  have d: "\<forall>i<length eps. elem ?H i i = (Fin (eps ! i), Fin 0)"
    by (simp add: e tridiag_entry_def of_fl_def)
  have o: "\<forall>i<length J. elem ?H i (i + 1) = (Fin (J ! i), Fin 0) \<and>
                          elem ?H (i + 1) i = (Fin (J ! i), Fin 0)"
    using assms by (simp add: e tridiag_entry_def of_fl_def)
  have z: "\<forall>i<length eps. \<forall>j<length eps. i + 1 < j \<or> j + 1 < i \<longrightarrow>
                          elem ?H i j = (Fin 0, Fin 0)"
    by (auto simp add: e tridiag_entry_def of_fl_def)
  have s: "nrows ?H = length eps" "ncols ?H = length eps" by (simp_all add: tridiag_def)
  show ?thesis using run tridiag_hermitian d o z s by blast
qed

text \<open>Claim C6 at \<open>eps = [1, 2]\<close>, \<open>J = [5]\<close>.\<close>

theorem build_hamiltonian_hermitian_witness:
  "\<exists>H. build_hamiltonian [Fin 1, Fin 2] [Fin 5] = Inr H \<and> np_conj (np_T H) = H \<and>
       elem H 0 1 = (Fin 5, Fin 0) \<and> elem H 1 0 = (Fin 5, Fin 0) \<and> elem H 1 1 = (Fin 2, Fin 0)"
  using build_hamiltonian_hermitian_tridiagonal [of "[1, 2]" "[5]"] by fastforce

section \<open>Claims about the resilience score\<close>

lemma foldl_fadd_Fin: "foldl fadd (Fin a) (map Fin xs) = Fin (a + sum_list xs)"
  by (induction xs arbitrary: a) (simp_all add: add.assoc)

lemma np_sum_Fin: "np_sum (map Fin xs) = Fin (sum_list xs)"
  by (simp add: np_sum_def foldl_fadd_Fin)

lemma np_sum_Fin_comp: "np_sum (map (Fin \<circ> f) xs) = Fin (sum_list (map f xs))"
  using np_sum_Fin [of "map f xs"] by simp

lemma np_clip_Fin: "np_clip (Fin x) (Fin 0) (Fin 1) = Fin (clip x 0 1)"
  by (simp add: np_clip_def np_maximum_def np_minimum_def clip_def)

lemma py_max_Fin: "py_max (Fin a) (Fin b) = Fin (max a b)"
  by (simp add: py_max_def max_def)

lemma fsub_Fin: "fsub (Fin a) (Fin b) = Fin (a - b)"
  by (simp add: fsub_def)

lemma resilience_drops_Fin:
  "1 / 10 ^ 6 < b \<Longrightarrow>
   map (\<lambda>q. py_max (Fin 0) (fdiv (fsub (Fin b) q) (py_max (Fin b) (Fin (1 / 10 ^ 6))))) (map Fin qs) =
   map Fin (map (\<lambda>q. max 0 ((b - q) / max b (1 / 10 ^ 6))) qs)"
  by (simp add: py_max_Fin fsub_Fin max_def)

lemma compute_resilience_finite:
  "compute_resilience (Fin b) (map Fin qs) =
     Fin (if b \<le> 1 / 10 ^ 6 then 1
          else if qs = [] then 1
          else clip (1 - (\<Sum>q\<leftarrow>qs. max 0 ((b - q) / max b (1 / 10 ^ 6))) / real (length qs)) 0 1)"
proof (cases "b \<le> 1 / 10 ^ 6")
  case True
  then show ?thesis by (simp add: compute_resilience_def)
next
  case False
  then have b: "1 / 10 ^ 6 < b" by simp
  show ?thesis
  proof (cases "qs = []")
    case True
    then show ?thesis using False by (simp add: compute_resilience_def fsub_Fin np_clip_Fin clip_def)
  next
    case ne: False
    have "compute_resilience (Fin b) (map Fin qs) =
        np_clip (fsub (Fin 1) (np_mean (map Fin (map (\<lambda>q. max 0 ((b - q) / max b (1 / 10 ^ 6))) qs))))
          (Fin 0) (Fin 1)"
      using False ne unfolding compute_resilience_def Let_def resilience_drops_Fin [OF b]
      by simp
    also have "\<dots> = Fin (clip (1 - (\<Sum>q\<leftarrow>qs. max 0 ((b - q) / max b (1 / 10 ^ 6))) / real (length qs)) 0 1)"
      using ne by (simp add: np_mean_def np_sum_Fin_comp fsub_Fin np_clip_Fin)
    finally show ?thesis using False ne by simp
  qed
qed

text \<open>
  The division in \<^verbatim>\<open>compute_resilience\<close> never divides by zero: past the early return the
  divisor \<^verbatim>\<open>max(base_qhs, 1e-6)\<close> is not zero.
\<close>

lemma resilience_divisor_nonzero:
  "\<not> fle base (Fin (1 / 10 ^ 6)) \<Longrightarrow> py_max base (Fin (1 / 10 ^ 6)) \<noteq> Fin 0"
  by (cases base) (simp_all add: py_max_def)

text \<open>
  Claim C8. \<^verbatim>\<open>compute_resilience\<close> returns exactly 1 whenever the base score is at most
  \<open>1e-6\<close>, whatever the list of perturbed scores holds; for a larger base score and finite
  perturbed scores \<open>qs\<close> it returns \<open>clip(1 - mean(drop), 0, 1)\<close> with
  \<open>drop q = max(0, (base - q) / max(base, 1e-6))\<close>, the mean over an empty list counting as 0
  (so the result is 1 there, see claim C10).
\<close>

theorem compute_resilience_formula:
  "(b \<le> 1 / 10 ^ 6 \<longrightarrow> compute_resilience (Fin b) any_list = Fin 1) \<and>
   compute_resilience (Fin b) (map Fin qs) =
     Fin (if b \<le> 1 / 10 ^ 6 then 1
          else if qs = [] then 1
          else clip (1 - (\<Sum>q\<leftarrow>qs. max 0 ((b - q) / max b (1 / 10 ^ 6))) / real (length qs)) 0 1)"
  by (simp only: compute_resilience_finite) (simp add: compute_resilience_def)

text \<open>Claim C8 at base score 0 with a list holding a NaN, and at base 1 with scores 1/2 and 2.\<close>

theorem compute_resilience_formula_witness:
  "compute_resilience (Fin 0) [NaN, Fin 3] = Fin 1 \<and>
   compute_resilience (Fin 1) [Fin (1 / 2), Fin 2] = Fin (3 / 4)"
  using compute_resilience_formula [of 0 "[NaN, Fin 3]" "[]"]
        compute_resilience_formula [of 1 "[]" "[1 / 2, 2]"]
  by (simp add: clip_def)

text \<open>
  Claim C10. For a base score above \<open>1e-6\<close> and an empty list of perturbed scores,
  \<^verbatim>\<open>compute_resilience\<close> returns exactly 1: the mean drop of an empty list is taken to be 0.
\<close>

theorem compute_resilience_empty:
  "flt (Fin (1 / 10 ^ 6)) base \<Longrightarrow> compute_resilience base [] = Fin 1"
  by (cases base) (simp_all add: compute_resilience_def fsub_Fin np_clip_Fin clip_def)

text \<open>Claim C10 at base score 1/2.\<close>

theorem compute_resilience_empty_witness:
  "flt (Fin (1 / 10 ^ 6)) (Fin (1 / 2)) \<and> compute_resilience (Fin (1 / 2)) [] = Fin 1"
  using compute_resilience_empty [of "Fin (1 / 2)"] by simp

section \<open>Claims about the transfer efficiency\<close>

lemma elem_amap:
  "wellformed A \<Longrightarrow> i < nrows A \<Longrightarrow> j < ncols A \<Longrightarrow> elem (amap f A) i j = f (elem A i j)"
  using idx_lt [of i "nrows A" j "ncols A"] by (simp add: amap_def elem_def wellformed_def)

lemma getitem_amap:
  "wellformed A \<Longrightarrow> i < nrows A \<Longrightarrow> j < ncols A \<Longrightarrow>
   getitem (amap f A) (int i) (int j) = Inr (f (elem A i j))"
  using elem_amap [of A i j f] by (simp add: getitem_def) (simp add: amap_def)

lemma ete_loop_finite:
  "list_all (\<lambda>rho. wellformed rho \<and> s < nrows rho \<and> s < ncols rho) traj \<Longrightarrow>
   ete_loop (map (amap of_complex) traj) (int s) (Fin k) (Fin dt) (Fin a) =
     Inr (Fin (a + (\<Sum>rho\<leftarrow>traj. k * Re (elem rho s s) * dt)))"
proof (induction traj arbitrary: a)
  case Nil
  then show ?case by simp
next
  case (Cons rho traj)
  then show ?case by (simp add: getitem_amap of_complex_def add.assoc)
qed

lemma compute_ete_finite:
  "list_all (\<lambda>rho. wellformed rho \<and> s < nrows rho \<and> s < ncols rho) traj \<Longrightarrow>
   compute_ete (map (amap of_complex) traj) (int s) (Fin k) (Fin dt) =
     Inr (Fin (clip (\<Sum>rho\<leftarrow>traj. k * Re (elem rho s s) * dt) 0 1))"
  by (simp add: compute_ete_def ete_loop_finite np_clip_Fin)

text \<open>
  Claim C3, as amended. For a trajectory of finite density matrices in which the sink
  index is in range, \<^verbatim>\<open>compute_ete\<close> equals \<open>clip(\<Sum> k_sink * Re(rho[sink, sink]) * dt, 0, 1)\<close>
  where the sum runs over every sample of the trajectory, the one at the final time
  included.
\<close>

theorem compute_ete_sums_every_sample:
  "list_all (\<lambda>rho. wellformed rho \<and> s < nrows rho \<and> s < ncols rho) traj \<Longrightarrow>
   compute_ete (map (amap of_complex) traj) (int s) (Fin k) (Fin dt) =
     Inr (Fin (clip (\<Sum>rho\<leftarrow>traj. k * Re (elem rho s s) * dt) 0 1))"
  by (rule compute_ete_finite)

text \<open>Claim C3, as amended, on two samples with sink populations 0 and 1.\<close>

theorem compute_ete_sums_every_sample_witness:
  "compute_ete (map (amap of_complex) [NDArray 1 1 [0], NDArray 1 1 [1]]) (int 0) (Fin 1) (Fin (1 / 2)) =
     Inr (Fin (1 / 2))"
  using compute_ete_sums_every_sample [of 0 "[NDArray 1 1 [0], NDArray 1 1 [1]]" 1 "1 / 2"]
  by (simp add: wellformed_def elem_def clip_def)

text \<open>
  Claim C3 as stated fails: on two samples with sink populations 0 and 1, \<open>k_sink = 1\<close>
  and \<open>dt = 1/2\<close>, the left Riemann sum (without the final sample) is 0, and
  \<^verbatim>\<open>compute_ete\<close> returns 1/2.
\<close>

theorem compute_ete_includes_final_sample:
  "compute_ete (map (amap of_complex) [NDArray 1 1 [0], NDArray 1 1 [1]]) 0 (Fin 1) (Fin (1 / 2)) =
     Inr (Fin (1 / 2)) \<and>
   left_riemann_ete [NDArray 1 1 [0], NDArray 1 1 [1]] 0 1 (1 / 2) = 0 \<and>
   compute_ete (map (amap of_complex) [NDArray 1 1 [0], NDArray 1 1 [1]]) 0 (Fin 1) (Fin (1 / 2)) \<noteq>
     Inr (Fin (left_riemann_ete [NDArray 1 1 [0], NDArray 1 1 [1]] 0 1 (1 / 2)))"
  using compute_ete_finite [of 0 "[NDArray 1 1 [0], NDArray 1 1 [1]]" 1 "1 / 2"]
  by (simp add: wellformed_def elem_def clip_def left_riemann_ete_def)





section \<open>Claims about the Lindblad operator builder\<close>

lemma cmul_real_one: "cmul (of_fl (Fin r)) cone = (Fin r, Fin 0)"
  by (simp add: cmul_def of_fl_def cone_def fsub_def)

lemma cmul_real_zero: "cmul (of_fl (Fin r)) czero = (Fin 0, Fin 0)"
  by (simp add: cmul_def of_fl_def czero_def fsub_def)

lemma site_op_in:
  assumes "i < n" "0 \<le> r"
  shows "site_op n (Fin r) i = Inr (projector n (sqrt r) i)"
proof -
  define Z :: "cfl ndarray" where "Z = np_zeros n n czero"
  define A where "A = NDArray (nrows Z) (ncols Z) ((buf Z)[i * ncols Z + i := cone])"
  have shZ: "nrows Z = n" "ncols Z = n" "wellformed Z" by (simp_all add: Z_def np_zeros_def)
  have shA: "nrows A = n" "ncols A = n" "wellformed A" using shZ by (simp_all add: A_def wellformed_def)
  have set: "setitem Z (int i) (int i) cone = Inr A"
    unfolding A_def using shZ assms by (intro setitem_in) simp_all
  have eA: "elem A a b = (if a = i \<and> b = i then cone else czero)" if "a < n" "b < n" for a b
    unfolding A_def using elem_update [of Z i i a b cone] shZ assms that
    by (simp add: Z_def np_zeros_def)
  have "np_scale (of_fl (fsqrt (Fin r))) A = projector n (sqrt r) i"
  proof (rule ndarray_eqI)
    show "wellformed (np_scale (of_fl (fsqrt (Fin r))) A)"
      using shA by (simp add: np_scale_def amap_def wellformed_def)
    show "wellformed (projector n (sqrt r) i)" by (simp add: projector_def)
    show "nrows (np_scale (of_fl (fsqrt (Fin r))) A) = nrows (projector n (sqrt r) i)"
      using shA by (simp add: np_scale_def amap_def projector_def)
    show "ncols (np_scale (of_fl (fsqrt (Fin r))) A) = ncols (projector n (sqrt r) i)"
      using shA by (simp add: np_scale_def amap_def projector_def)
    fix a b
    assume "a < nrows (np_scale (of_fl (fsqrt (Fin r))) A)" "b < ncols (np_scale (of_fl (fsqrt (Fin r))) A)"
    then have ab: "a < n" "b < n" using shA by (simp_all add: np_scale_def amap_def)
    have "elem (np_scale (of_fl (fsqrt (Fin r))) A) a b = cmul (of_fl (fsqrt (Fin r))) (elem A a b)"
      unfolding np_scale_def using shA ab by (intro elem_amap) simp_all
    then show "elem (np_scale (of_fl (fsqrt (Fin r))) A) a b = elem (projector n (sqrt r) i) a b"
      using ab assms(2) by (simp add: eA projector_def cmul_real_one cmul_real_zero)
  qed
  then show ?thesis using set by (simp add: site_op_def Z_def)
qed

lemma site_op_out: "n \<le> i \<Longrightarrow> site_op n rate i = Inl IndexError"
  by (simp add: site_op_def setitem_def np_zeros_def)

lemma dephasing_loop_ok:
  "0 \<le> r \<Longrightarrow> list_all (\<lambda>i. i < n) sites \<Longrightarrow>
   dephasing_loop n (Fin r) sites L = Inr (L @ map (projector n (sqrt r)) sites)"
  by (induction sites arbitrary: L) (simp_all add: site_op_in)

lemma loss_loop_ok:
  "0 \<le> r \<Longrightarrow> list_all (\<lambda>i. i < n) sites \<Longrightarrow>
   loss_loop n (Fin r) sites L =
     Inr (L @ map (projector n (sqrt r)) (filter (\<lambda>i. i \<noteq> SINK_INDEX) sites))"
  by (induction sites arbitrary: L) (simp_all add: site_op_in)

lemma list_all_upt: "list_all (\<lambda>i. i < n) [0..<n]"
  by (simp add: list_all_iff)

lemma length_filter_neq: "s < n \<Longrightarrow> length (filter (\<lambda>i. i \<noteq> s) [0..<n]) = n - 1"
proof -
  assume s: "s < n"
  have "[0..<n] = [0..<s] @ s # [Suc s..<n]"
    using s by (metis le_add_diff_inverse less_imp_le_nat upt_add_eq_append upt_conv_Cons zero_le add_0)
  then have "filter (\<lambda>i. i \<noteq> s) [0..<n] = filter (\<lambda>i. i \<noteq> s) [0..<s] @ filter (\<lambda>i. i \<noteq> s) [Suc s..<n]"
    by simp
  moreover have "filter (\<lambda>i. i \<noteq> s) [0..<s] = [0..<s]" by (rule filter_True) simp
  moreover have "filter (\<lambda>i. i \<noteq> s) [Suc s..<n] = [Suc s..<n]" by (rule filter_True) simp
  ultimately show ?thesis using s by simp
qed

lemma build_lindblad_ops_cases:
  assumes "0 \<le> gamma" "0 \<le> k_sink" "0 \<le> k_loss"
  shows "build_lindblad_ops N (Fin gamma) (Fin k_sink) (Fin k_loss) =
     (if N \<le> SINK_INDEX then Inl IndexError
      else Inr (map (projector N (sqrt gamma)) [0..<N] @
                map (projector N (sqrt k_loss)) (filter (\<lambda>i. i \<noteq> SINK_INDEX) [0..<N]) @
                [projector N (sqrt k_sink) SINK_INDEX]))"
  using assms
  by (simp add: build_lindblad_ops_def dephasing_loop_ok loss_loop_ok list_all_upt site_op_in site_op_out)

text \<open>
  Claim C2, as amended. The sink index is the module constant \<^verbatim>\<open>SINK_INDEX = 6\<close>, whatever
  \<^verbatim>\<open>num_sites\<close> is. For non-negative rates and \<open>N > 6\<close> sites, \<^verbatim>\<open>build_lindblad_ops\<close>
  returns \<open>2N\<close> operators: \<open>N\<close> dephasing operators \<open>sqrt(gamma) |i><i|\<close>, then the loss
  operators \<open>sqrt(k_loss) |i><i|\<close> for every site but site 6, then the sink operator
  \<open>sqrt(k_sink) |6><6|\<close>. For \<open>N \<le> 6\<close> building the sink operator raises an \<^verbatim>\<open>IndexError\<close>.
  The sink is the last site exactly when \<open>N = NUM_ETC_SITES = 7\<close>.
\<close>

theorem build_lindblad_ops_config_sink:
  assumes "0 \<le> gamma" "0 \<le> k_sink" "0 \<le> k_loss"
  shows "build_lindblad_ops N (Fin gamma) (Fin k_sink) (Fin k_loss) =
     (if N \<le> SINK_INDEX then Inl IndexError
      else Inr (map (projector N (sqrt gamma)) [0..<N] @
                map (projector N (sqrt k_loss)) (filter (\<lambda>i. i \<noteq> SINK_INDEX) [0..<N]) @
                [projector N (sqrt k_sink) SINK_INDEX])) \<and>
   (SINK_INDEX < N \<longrightarrow>
      length (map (projector N (sqrt gamma)) [0..<N] @
              map (projector N (sqrt k_loss)) (filter (\<lambda>i. i \<noteq> SINK_INDEX) [0..<N]) @
              [projector N (sqrt k_sink) SINK_INDEX]) = 2 * N) \<and>
   (N = NUM_ETC_SITES \<longrightarrow> SINK_INDEX = N - 1 \<and> filter (\<lambda>i. i \<noteq> SINK_INDEX) [0..<N] = [0..<N - 1])"
proof -
  have "filter (\<lambda>i. i \<noteq> SINK_INDEX) [0..<NUM_ETC_SITES] = [0..<NUM_ETC_SITES - 1]"
    by code_simp
  then show ?thesis
    using build_lindblad_ops_cases [OF assms, of N] length_filter_neq [of SINK_INDEX N]
    by (auto simp add: SINK_INDEX_def)
qed

text \<open>Claim C2, as amended, at 7 sites with rates 4, 1 and 0.\<close>

theorem build_lindblad_ops_config_sink_witness:
  "build_lindblad_ops 7 (Fin 4) (Fin 1) (Fin 0) =
     Inr (map (projector 7 2) [0..<7] @ map (projector 7 0) [0..<6] @ [projector 7 1 6])"
  using build_lindblad_ops_config_sink [of 4 1 0 7]
  by (simp add: SINK_INDEX_def NUM_ETC_SITES_def)

text \<open>
  Claim C2 as stated fails: for one site the call raises an \<^verbatim>\<open>IndexError\<close> and returns
  no operators, and for eight sites the sink operator sits on site 6, not on the last
  site 7.
\<close>

theorem build_lindblad_ops_sink_not_last:
  "build_lindblad_ops 1 (Fin 1) (Fin 1) (Fin 1) = Inl IndexError \<and>
   build_lindblad_ops 8 (Fin 1) (Fin 1) (Fin 1) =
     Inr (map (projector 8 1) [0..<8] @ map (projector 8 1) [0, 1, 2, 3, 4, 5, 7] @ [projector 8 1 6]) \<and>
   projector 8 1 6 \<noteq> projector 8 1 (8 - 1)"
proof -
  have "elem (projector 8 1 6) 6 6 \<noteq> elem (projector 8 1 7) 6 6" by (simp add: projector_def)
  then have "projector 8 1 6 \<noteq> projector 8 1 7" by auto
  moreover have "filter (\<lambda>i. i \<noteq> (6::nat)) [0..<8] = [0, 1, 2, 3, 4, 5, 7]" by code_simp
  ultimately show ?thesis
    using build_lindblad_ops_cases [of 1 1 1 1] build_lindblad_ops_cases [of 1 1 1 8]
    by (simp add: SINK_INDEX_def NUM_ETC_SITES_def)
qed

section \<open>Claims about the coherence lifetime\<close>

lemma clean_eq: "np_maximum (if \<not> isfinite c then Fin 0 else c) (Fin 0) = clamp_coherence c"
  by (cases c) (auto simp add: np_maximum_def clamp_coherence_def)

lemma clamp_coherence_range: "isfinite (clamp_coherence c) \<and> fle (Fin 0) (clamp_coherence c)"
  by (cases c) (auto simp add: clamp_coherence_def)

lemma map2_nth_upt:
  "length xs = length ys \<Longrightarrow> map2 f xs ys = map (\<lambda>i. f (xs ! i) (ys ! i)) [0..<length xs]"
  by (intro nth_equalityI) simp_all

lemma np_diff_nth: "np_diff t = map (\<lambda>i. fsub (t ! (i + 1)) (t ! i)) [0..<length t - 1]"
proof -
  have "map2 fsub (tl t) (butlast t) = map (\<lambda>i. fsub (tl t ! i) (butlast t ! i)) [0..<length (tl t)]"
    by (rule map2_nth_upt) simp
  also have "\<dots> = map (\<lambda>i. fsub (t ! (i + 1)) (t ! i)) [0..<length t - 1]"
    by (rule map_cong) (simp_all add: nth_tl nth_butlast)
  finally show ?thesis by (simp add: np_diff_def)
qed

lemma pair_sum_nth:
  "map2 fadd (tl y) (butlast y) = map (\<lambda>i. fadd (y ! (i + 1)) (y ! i)) [0..<length y - 1]"
proof -
  have "map2 fadd (tl y) (butlast y) = map (\<lambda>i. fadd (tl y ! i) (butlast y ! i)) [0..<length (tl y)]"
    by (rule map2_nth_upt) simp
  also have "\<dots> = map (\<lambda>i. fadd (y ! (i + 1)) (y ! i)) [0..<length y - 1]"
    by (rule map_cong) (simp_all add: nth_tl nth_butlast)
  finally show ?thesis .
qed

lemma np_trapz_trapezoid:
  assumes "length y = length t"
  shows "np_trapz y t = Inr (trapezoid y t)"
proof -
  let ?n = "length t - 1"
  have "bcast fmul (np_diff t) (map2 fadd (tl y) (butlast y)) =
      Inr (map2 fmul (np_diff t) (map2 fadd (tl y) (butlast y)))"
    using assms by (simp add: bcast_def np_diff_def)
  moreover have "map2 fmul (np_diff t) (map2 fadd (tl y) (butlast y)) =
      map (\<lambda>i. fmul (fsub (t ! (i + 1)) (t ! i)) (fadd (y ! (i + 1)) (y ! i))) [0..<?n]"
    unfolding np_diff_nth pair_sum_nth using assms by (intro nth_equalityI) simp_all
  ultimately show ?thesis
    by (simp add: np_trapz_def trapezoid_def Let_def comp_def)
qed

lemma compute_tau_c_cases:
  assumes "length series = length time_grid"
  shows "compute_tau_c series time_grid =
     Inr (let C = map (\<lambda>rho. clamp_coherence (coherence_measure rho)) series;
              den = trapezoid C time_grid;
              num = trapezoid (map2 fmul time_grid C) time_grid
          in if fle den (Fin (1 / 10 ^ 12)) \<or> \<not> isfinite (fdiv num den) then Fin 0
             else fdiv num den)"
proof -
  define C where "C = map (\<lambda>rho. clamp_coherence (coherence_measure rho)) series"
  have C: "map (\<lambda>c. np_maximum c (Fin 0))
            (map (\<lambda>c. if \<not> isfinite c then Fin 0 else c) (map coherence_measure series)) = C"
    by (simp add: C_def clean_eq comp_def)
  have len: "length C = length time_grid" using assms by (simp add: C_def)
  have den: "np_trapz C time_grid = Inr (trapezoid C time_grid)"
    using len by (rule np_trapz_trapezoid)
  have tC: "bcast fmul time_grid C = Inr (map2 fmul time_grid C)"
    using len by (simp add: bcast_def)
  have num: "np_trapz (map2 fmul time_grid C) time_grid = Inr (trapezoid (map2 fmul time_grid C) time_grid)"
    using len by (intro np_trapz_trapezoid) simp
  show ?thesis
    unfolding compute_tau_c_def Let_def C den C_def [symmetric]
    by (simp add: tC num)
qed

lemma coherence_2x2:
  "coherence_measure (NDArray 2 2 [a, b, c, d]) =
     fsqrt (np_sum [Fin 0, fst (cmul (cconj b) b), fst (cmul (cconj c) c), Fin 0])"
  by (simp add: coherence_measure_def tabulate_def elem_def upt_rec cmul_def cconj_def czero_def fsub_def)

text \<open>
  Claim C7. For a trajectory and a time grid of equal length, \<^verbatim>\<open>compute_tau_c\<close> replaces
  every non-finite or negative coherence value by 0, integrates by the trapezoidal rule,
  and returns exactly 0 when the coherence integral \<open>den\<close> is at most \<open>1e-12\<close> or when the
  ratio \<open>num / den\<close> is not finite; otherwise it returns the ratio.
\<close>

theorem compute_tau_c_guards:
  assumes "length series = length time_grid"
  shows "compute_tau_c series time_grid =
     Inr (let C = map (\<lambda>rho. clamp_coherence (coherence_measure rho)) series;
              den = trapezoid C time_grid;
              num = trapezoid (map2 fmul time_grid C) time_grid
          in if fle den (Fin (1 / 10 ^ 12)) \<or> \<not> isfinite (fdiv num den) then Fin 0
             else fdiv num den)"
  using assms by (rule compute_tau_c_cases)

lemma trapezoid_2: "trapezoid [y0, y1] [t0, t1] = fadd (Fin 0) (fdiv (fmul (fsub t1 t0) (fadd y1 y0)) (Fin 2))"
  by (simp add: trapezoid_def np_sum_def)

text \<open>
  Claim C7 on two samples: with coherence 1 on the grid \<open>[0, 2]\<close> the lifetime is 1; on the
  grid \<open>[0, +inf]\<close> the ratio is not finite and the result is 0; with a NaN and an infinite
  coherence value both are clamped to 0, the integral is 0 and the result is 0.
\<close>

theorem compute_tau_c_guards_witness:
  "compute_tau_c [NDArray 2 2 [czero, cone, czero, czero], NDArray 2 2 [czero, cone, czero, czero]]
     [Fin 0, Fin 2] = Inr (Fin 1) \<and>
   compute_tau_c [NDArray 2 2 [czero, cone, czero, czero], NDArray 2 2 [czero, cone, czero, czero]]
     [Fin 0, PInf] = Inr (Fin 0) \<and>
   compute_tau_c [NDArray 2 2 [czero, (NaN, Fin 0), czero, czero], NDArray 2 2 [czero, (Fin (- 1), PInf), czero, czero]]
     [Fin 0, Fin 2] = Inr (Fin 0)"
  using compute_tau_c_guards [of "[NDArray 2 2 [czero, cone, czero, czero], NDArray 2 2 [czero, cone, czero, czero]]" "[Fin 0, Fin 2]"]
    compute_tau_c_guards [of "[NDArray 2 2 [czero, cone, czero, czero], NDArray 2 2 [czero, cone, czero, czero]]" "[Fin 0, PInf]"]
    compute_tau_c_guards [of "[NDArray 2 2 [czero, (NaN, Fin 0), czero, czero], NDArray 2 2 [czero, (Fin (- 1), PInf), czero, czero]]" "[Fin 0, Fin 2]"]
  by (simp add: coherence_2x2 trapezoid_2 np_sum_def cmul_def cconj_def cone_def czero_def fsub_def
      clamp_coherence_def)

section \<open>Claims about the evolution engine\<close>

lemma shape_simps [simp]:
  "nrows (np_kron A B) = nrows A * nrows B" "ncols (np_kron A B) = ncols A * ncols B"
  "nrows (np_T A) = ncols A" "ncols (np_T A) = nrows A"
  "nrows (np_conj C) = nrows C" "ncols (np_conj C) = ncols C"
  "nrows (np_scale s C) = nrows C" "ncols (np_scale s C) = ncols C"
  "nrows (np_identity n) = n" "ncols (np_identity n) = n"
  "nrows (np_zeros r c z) = r" "ncols (np_zeros r c z) = c"
  by (simp_all add: np_kron_def np_T_def np_conj_def np_scale_def amap_def np_identity_def np_zeros_def)

lemma np_binop_same:
  "nrows A = nrows B \<Longrightarrow> ncols A = ncols B \<Longrightarrow>
   \<exists>C. np_binop f A B = Inr C \<and> nrows C = nrows B \<and> ncols C = ncols B"
  by (simp add: np_binop_def bdim_def)

lemma np_iadd_same:
  "nrows A = nrows B \<Longrightarrow> ncols A = ncols B \<Longrightarrow>
   \<exists>C. np_iadd A B = Inr C \<and> nrows C = nrows B \<and> ncols C = ncols B"
  using np_binop_same [of A B cadd] by (auto simp add: np_iadd_def)

lemma np_matmul_ok:
  "ncols A = nrows B \<Longrightarrow> \<exists>C. np_matmul A B = Inr C \<and> nrows C = nrows A \<and> ncols C = ncols B"
  by (simp add: np_matmul_def)

lemma dissipator_step:
  assumes I: "nrows I = N" "ncols I = N" and Lk: "nrows Lk = N" "ncols Lk = N"
    and LD: "nrows L_D = N * N" "ncols L_D = N * N"
  shows "\<exists>L_D'. dissipator_loop I (Lk # rest) L_D = dissipator_loop I rest L_D' \<and>
               nrows L_D' = N * N \<and> ncols L_D' = N * N"
proof -
  obtain P where P: "np_matmul (np_T (np_conj Lk)) Lk = Inr P" "nrows P = N" "ncols P = N"
    using np_matmul_ok [of "np_T (np_conj Lk)" Lk] Lk by auto
  obtain S where S: "np_binop cadd (np_kron I P) (np_kron (np_T P) I) = Inr S"
      "nrows S = N * N" "ncols S = N * N"
    using np_binop_same [of "np_kron I P" "np_kron (np_T P) I" cadd] I P by auto
  obtain D where D: "np_binop csub (np_kron (np_conj Lk) Lk) (np_scale (Fin (1 / 2), Fin 0) S) = Inr D"
      "nrows D = N * N" "ncols D = N * N"
    using np_binop_same [of "np_kron (np_conj Lk) Lk" "np_scale (Fin (1 / 2), Fin 0) S" csub] Lk S by auto
  obtain L' where L': "np_iadd L_D D = Inr L'" "nrows L' = N * N" "ncols L' = N * N"
    using np_iadd_same [of L_D D] LD D by auto
  have "dissipator_loop I (Lk # rest) L_D = dissipator_loop I rest L'"
    using P S D L' by (simp add: Let_def)
  then show ?thesis using L' by blast
qed

lemma dissipator_loop_ok:
  assumes "nrows I = N" "ncols I = N"
  shows "list_all (\<lambda>Lk. nrows Lk = N \<and> ncols Lk = N) L_ops \<Longrightarrow>
         nrows L_D = N * N \<Longrightarrow> ncols L_D = N * N \<Longrightarrow>
         \<exists>R. dissipator_loop I L_ops L_D = Inr R \<and> nrows R = N * N \<and> ncols R = N * N"
proof (induction L_ops arbitrary: L_D)
  case Nil
  then show ?case by simp
next
  case (Cons Lk rest)
  then have Lk: "nrows Lk = N" "ncols Lk = N" and rest: "list_all (\<lambda>Lk. nrows Lk = N \<and> ncols Lk = N) rest"
    by simp_all
  obtain L_D' where s: "dissipator_loop I (Lk # rest) L_D = dissipator_loop I rest L_D'"
      "nrows L_D' = N * N" "ncols L_D' = N * N"
    using dissipator_step [OF assms Lk Cons.prems(2,3)] by blast
  show ?case using Cons.IH [OF rest s(2,3)] s(1) by simp
qed

lemma liouvillian_ok:
  assumes "nrows H = N" "ncols H = N" "list_all (\<lambda>Lk. nrows Lk = N \<and> ncols Lk = N) L_ops"
  shows "\<exists>L. liouvillian N H L_ops = Inr L \<and> nrows L = N * N \<and> ncols L = N * N"
proof -
  obtain X where X: "np_binop csub (np_kron (np_identity N) H) (np_kron (np_T H) (np_identity N)) = Inr X"
      "nrows X = N * N" "ncols X = N * N"
    using np_binop_same [of "np_kron (np_identity N) H" "np_kron (np_T H) (np_identity N)" csub] assms(1,2)
    by auto
  obtain LD where LD: "dissipator_loop (np_identity N) L_ops (np_zeros (N * N) (N * N) czero) = Inr LD"
      "nrows LD = N * N" "ncols LD = N * N"
    using dissipator_loop_ok [of "np_identity N" N L_ops "np_zeros (N * N) (N * N) czero"] assms(3)
    by auto
  obtain L where L: "np_binop cadd (np_scale (Fin 0, Fin (- 1)) X) LD = Inr L"
      "nrows L = N * N" "ncols L = N * N"
    using np_binop_same [of "np_scale (Fin 0, Fin (- 1)) X" LD cadd] X LD by auto
  show ?thesis using X LD L by (simp add: liouvillian_def Let_def)
qed

lemma np_matvec_ok:
  "ncols U = length v \<Longrightarrow> \<exists>w. np_matvec U v = Inr w \<and> length w = nrows U"
  by (simp add: np_matvec_def)

text \<open>One round of the loop allocates one or two buffers and writes to none.\<close>

lemma evolve_loop_grows:
  "evolve_loop U N ts h rho_vec series = Inr (series', h') \<Longrightarrow>
   take (length h) h' = h \<and> length h \<le> length h' \<and>
   (\<exists>new. series' = series @ new \<and> length new = length ts \<and>
          list_all (\<lambda>a. length h \<le> addr a) new)"
proof (induction ts arbitrary: h rho_vec series)
  case Nil
  then show ?case by simp
next
  case (Cons t rest)
  from Cons.prems obtain v where v: "np_matvec U (h ! rho_vec) = Inr v"
    by (cases "np_matvec U (h ! rho_vec)") simp_all
  define h2 where "h2 = (if \<not> list_all cfinite v then (h @ [v]) @ [map nan_to_num v] else h @ [v])"
  define a2 where "a2 = (if \<not> list_all cfinite v then Suc (length h) else length h)"
  have run: "evolve_loop U N (t # rest) h rho_vec series =
      (if length (h2 ! a2) = N * N then evolve_loop U N rest h2 a2 (series @ [ARef a2 N N])
       else Inl ValueError)"
    using v by (simp add: alloc_def h2_def a2_def Let_def)
  then have rec: "evolve_loop U N rest h2 a2 (series @ [ARef a2 N N]) = Inr (series', h')"
    using Cons.prems by (simp split: if_splits)
  have pre: "take (length h) h2 = h" "length h \<le> length h2" "length h \<le> a2"
    by (simp_all add: h2_def a2_def)
  from Cons.IH [OF rec] obtain new where
    ih: "take (length h2) h' = h2" "length h2 \<le> length h'"
      "series' = (series @ [ARef a2 N N]) @ new" "length new = length rest"
      "list_all (\<lambda>a. length h2 \<le> addr a) new"
    by blast
  have "take (length h) h' = take (length h) (take (length h2) h')"
    using pre(2) by (simp add: min_def)
  then have t: "take (length h) h' = h" using ih(1) pre(1) by simp
  have "list_all (\<lambda>a. length h \<le> addr a) (ARef a2 N N # new)"
    using ih(5) pre(2,3) by (auto simp add: list_all_iff)
  then show ?case using t ih pre by (intro conjI exI [of _ "ARef a2 N N # new"]) simp_all
qed

lemma evolve_loop_ok:
  "nrows U = N * N \<Longrightarrow> ncols U = N * N \<Longrightarrow> length (h ! rho_vec) = N * N \<Longrightarrow>
   \<exists>r. evolve_loop U N ts h rho_vec series = Inr r"
proof (induction ts arbitrary: h rho_vec series)
  case Nil
  then show ?case by simp
next
  case (Cons t rest)
  obtain v where v: "np_matvec U (h ! rho_vec) = Inr v" "length v = N * N"
    using np_matvec_ok [of U "h ! rho_vec"] Cons.prems by auto
  define h2 where "h2 = (if \<not> list_all cfinite v then (h @ [v]) @ [map nan_to_num v] else h @ [v])"
  define a2 where "a2 = (if \<not> list_all cfinite v then Suc (length h) else length h)"
  have len: "length (h2 ! a2) = N * N"
    using v(2) by (simp add: h2_def a2_def nth_append)
  have "evolve_loop U N (t # rest) h rho_vec series =
      (if length (h2 ! a2) = N * N then evolve_loop U N rest h2 a2 (series @ [ARef a2 N N])
       else Inl ValueError)"
    using v by (simp add: alloc_def h2_def a2_def Let_def)
  then have run: "evolve_loop U N (t # rest) h rho_vec series =
      evolve_loop U N rest h2 a2 (series @ [ARef a2 N N])"
    using len by simp
  show ?case using Cons.IH [OF Cons.prems(1,2) len] run by simp
qed


lemma time_evolve_run:
  assumes "time_evolve expm h rho0 H L_ops T_end dt = Inr ((series, tg), h')"
  shows "\<exists>L U. liouvillian (rows rho0) H L_ops = Inr L \<and>
               np_arange 0 (T_end + dt) dt = Inr tg \<and>
               expm (np_scale (of_fl (Fin dt)) L) = Inr U \<and>
               evolve_loop U (rows rho0) (tl tg)
                 ((h @ [h ! addr rho0]) @ [(h @ [h ! addr rho0]) ! addr rho0]) (length h)
                 [ARef (Suc (length h)) (rows rho0) (cols rho0)] = Inr (series, h')"
  using assms
  by (auto simp add: time_evolve_def Let_def alloc_def bind_err_def split: sum.splits prod.splits)

lemma time_evolve_ok_run:
  assumes "liouvillian (rows rho0) H L_ops = Inr L"
    and "np_arange 0 (T_end + dt) dt = Inr tg"
    and "expm (np_scale (of_fl (Fin dt)) L) = Inr U"
    and "evolve_loop U (rows rho0) (tl tg)
           ((h @ [h ! addr rho0]) @ [(h @ [h ! addr rho0]) ! addr rho0]) (length h)
           [ARef (Suc (length h)) (rows rho0) (cols rho0)] = Inr (series, h')"
  shows "time_evolve expm h rho0 H L_ops T_end dt = Inr ((series, tg), h')"
  using assms by (simp add: time_evolve_def Let_def alloc_def)

lemma time_evolve_frame:
  assumes run: "time_evolve expm h rho0 H L_ops T_end dt = Inr ((series, tg), h')"
    and valid: "addr rho0 < length h"
  shows "take (length h) h' = h \<and> load h' rho0 = load h rho0 \<and>
         series \<noteq> [] \<and> addr (hd series) \<noteq> addr rho0 \<and>
         load h' (hd series) = load h rho0 \<and>
         list_all (\<lambda>a. length h \<le> addr a) series \<and>
         length series = 1 + length (tl tg)"
proof -
  define h2 where "h2 = (h @ [h ! addr rho0]) @ [(h @ [h ! addr rho0]) ! addr rho0]"
  obtain U where loop: "evolve_loop U (rows rho0) (tl tg) h2 (length h)
      [ARef (Suc (length h)) (rows rho0) (cols rho0)] = Inr (series, h')"
    using time_evolve_run [OF run] unfolding h2_def by blast
  obtain new where g: "take (length h2) h' = h2" "length h2 \<le> length h'"
      "series = [ARef (Suc (length h)) (rows rho0) (cols rho0)] @ new"
      "length new = length (tl tg)" "list_all (\<lambda>a. length h2 \<le> addr a) new"
    using evolve_loop_grows [OF loop] by blast
  have l2: "length h2 = length h + 2" by (simp add: h2_def)
  have copy: "h2 ! Suc (length h) = h ! addr rho0"
    using valid by (simp add: h2_def nth_append)
  have old: "take (length h) h2 = h" by (simp add: h2_def)
  have "take (length h) h' = take (length h) (take (length h2) h')"
    using l2 by (simp add: min_def)
  then have t: "take (length h) h' = h" using g(1) old by simp
  have same: "h' ! addr rho0 = h ! addr rho0"
    using valid nth_take [of "addr rho0" "length h" h'] t by simp
  have "h' ! Suc (length h) = take (length h2) h' ! Suc (length h)"
    using l2 by simp
  then have first: "h' ! Suc (length h) = h ! addr rho0" using g(1) copy by simp
  have "list_all (\<lambda>a. length h \<le> addr a) new"
    using g(5) l2 by (auto simp add: list_all_iff)
  then show ?thesis using t same first g(3,4) valid by (simp add: load_def)
qed

lemma time_evolve_returns:
  assumes "evolve_inputs h rho0 H L_ops" "expm_keeps_shape expm" "dt \<noteq> 0"
  shows "\<exists>series h'. time_evolve expm h rho0 H L_ops T_end dt =
           Inr ((series, map (\<lambda>i. real i * dt) [0..<nat \<lceil>(T_end + dt - 0) / dt\<rceil>]), h')"
proof -
  define N where "N = rows rho0"
  have inp: "addr rho0 < length h" "length (h ! addr rho0) = N * N" "nrows H = N" "ncols H = N"
      "list_all (\<lambda>Lk. nrows Lk = N \<and> ncols Lk = N) L_ops"
    using assms(1) by (simp_all add: evolve_inputs_def N_def)
  obtain L where L: "liouvillian N H L_ops = Inr L" "nrows L = N * N" "ncols L = N * N"
    using liouvillian_ok [OF inp(3,4,5)] by blast
  define tg where "tg = map (\<lambda>i. real i * dt) [0..<nat \<lceil>(T_end + dt - 0) / dt\<rceil>]"
  have tg: "np_arange 0 (T_end + dt) dt = Inr tg"
    using assms(3) by (simp add: np_arange_def tg_def)
  obtain U where U: "expm (np_scale (of_fl (Fin dt)) L) = Inr U" "nrows U = N * N" "ncols U = N * N"
    using assms(2) L(2,3) unfolding expm_keeps_shape_def
    by (metis shape_simps(7) shape_simps(8))
  define h2 where "h2 = (h @ [h ! addr rho0]) @ [(h @ [h ! addr rho0]) ! addr rho0]"
  have "length (h2 ! length h) = N * N" using inp(2) by (simp add: h2_def nth_append)
  then obtain r where "evolve_loop U N (tl tg) h2 (length h)
      [ARef (Suc (length h)) (rows rho0) (cols rho0)] = Inr r"
    using evolve_loop_ok [OF U(2,3)] by blast
  then obtain series h' where "evolve_loop U N (tl tg) h2 (length h)
      [ARef (Suc (length h)) (rows rho0) (cols rho0)] = Inr (series, h')"
    by (cases r) auto
  then have "time_evolve expm h rho0 H L_ops T_end dt = Inr ((series, tg), h')"
    using L(1) tg U(1) unfolding h2_def N_def by (intro time_evolve_ok_run) simp_all
  then show ?thesis unfolding tg_def by blast
qed









text \<open>
  Claim C9. \<^verbatim>\<open>time_evolve\<close> writes to no buffer that existed before the call: the heap
  after the call extends the heap before it, so \<open>rho0\<close> reads the same before and after.
  The first element of the trajectory is an array on a fresh buffer (not that of
  \<open>rho0\<close>) with the contents of \<open>rho0\<close>, and no element of the trajectory shares a buffer
  with an array that existed before. This holds for every outcome of the blow-up guard.
  On \<open>N \<times> N\<close> inputs with \<open>dt \<noteq> 0\<close> the call does return.
\<close>

theorem time_evolve_leaves_rho0:
  assumes "addr rho0 < length h"
  shows "(\<forall>series tg h'. time_evolve expm h rho0 H L_ops T_end dt = Inr ((series, tg), h') \<longrightarrow>
            take (length h) h' = h \<and> load h' rho0 = load h rho0 \<and>
            series \<noteq> [] \<and> addr (hd series) \<noteq> addr rho0 \<and>
            load h' (hd series) = load h rho0 \<and>
            list_all (\<lambda>a. length h \<le> addr a) series) \<and>
         (evolve_inputs h rho0 H L_ops \<and> expm_keeps_shape expm \<and> dt \<noteq> 0 \<longrightarrow>
            (\<exists>r. time_evolve expm h rho0 H L_ops T_end dt = Inr r))"
proof (intro conjI allI impI)
  fix series tg h'
  assume run: "time_evolve expm h rho0 H L_ops T_end dt = Inr ((series, tg), h')"
  note f = time_evolve_frame [OF run assms]
  show "take (length h) h' = h" using f by simp
  show "load h' rho0 = load h rho0" using f by simp
  show "series \<noteq> []" using f by simp
  show "addr (hd series) \<noteq> addr rho0" using f by simp
  show "load h' (hd series) = load h rho0" using f by simp
  show "list_all (\<lambda>a. length h \<le> addr a) series" using f by simp
next
  assume "evolve_inputs h rho0 H L_ops \<and> expm_keeps_shape expm \<and> dt \<noteq> 0"
  then show "\<exists>r. time_evolve expm h rho0 H L_ops T_end dt = Inr r"
    using time_evolve_returns [of h rho0 H L_ops expm dt T_end] by blast
qed

lemma run_blowup:
  "time_evolve expm_at_zero [[(PInf, Fin 0)]] (ARef 0 1 1) (NDArray 1 1 [czero]) [] 1 1 =
     Inr (([ARef 2 1 1, ARef 4 1 1], [0, 1]),
          [[(PInf, Fin 0)], [(PInf, Fin 0)], [(PInf, Fin 0)], [(PInf, NaN)], [czero]])"
  by code_simp

text \<open>
  Claim C9 on a run in which the guard fires: \<open>rho0\<close> holds \<open>+inf\<close>, the first step gives a
  non-finite vector, which is replaced by zeros in a new buffer; \<open>rho0\<close> and the first
  trajectory element still hold \<open>+inf\<close>.
\<close>

theorem time_evolve_leaves_rho0_witness:
  "time_evolve expm_at_zero [[(PInf, Fin 0)]] (ARef 0 1 1) (NDArray 1 1 [czero]) [] 1 1 =
     Inr (([ARef 2 1 1, ARef 4 1 1], [0, 1]),
          [[(PInf, Fin 0)], [(PInf, Fin 0)], [(PInf, Fin 0)], [(PInf, NaN)], [czero]]) \<and>
   \<not> list_all cfinite [(PInf, NaN)] \<and>
   load [[(PInf, Fin 0)], [(PInf, Fin 0)], [(PInf, Fin 0)], [(PInf, NaN)], [czero]] (ARef 0 1 1) =
     load [[(PInf, Fin 0)]] (ARef 0 1 1) \<and>
   load [[(PInf, Fin 0)], [(PInf, Fin 0)], [(PInf, Fin 0)], [(PInf, NaN)], [czero]] (ARef 2 1 1) =
     load [[(PInf, Fin 0)]] (ARef 0 1 1)"
proof -
  have v: "addr (ARef 0 1 1) < length [[(PInf, Fin 0)]]" by simp
  have "load [[(PInf, Fin 0)], [(PInf, Fin 0)], [(PInf, Fin 0)], [(PInf, NaN)], [czero]] (ARef 0 1 1) =
          load [[(PInf, Fin 0)]] (ARef 0 1 1) \<and>
        load [[(PInf, Fin 0)], [(PInf, Fin 0)], [(PInf, Fin 0)], [(PInf, NaN)], [czero]]
          (hd [ARef 2 1 1, ARef 4 1 1]) = load [[(PInf, Fin 0)]] (ARef 0 1 1)"
    using time_evolve_leaves_rho0 [OF v, of expm_at_zero "NDArray 1 1 [czero]" "[]" 1 1] run_blowup
    by blast
  then show ?thesis using run_blowup by (simp add: cfinite_def)
qed

end
